theory Spec2Isabelle
  imports Main "HOL-Library.Word"
begin

text \<open>
  A model of the chat component of \<open>src/App.jsx\<close>: its state cells, the start-up probe,
  \<open>sendMessage\<close> on both sides of its \<open>await\<close>, and the reply extraction, followed by
  the properties of the request supersession and of the response reconciliation.
\<close>

section \<open>JavaScript values as App.jsx sees them\<close>

text \<open>
  A JavaScript string is a sequence of UTF-16 code units: \<open>slice(0, 2000)\<close> counts code
  units, and the warning sign U+26A0 with its variation selector U+FE0F is two units.
\<close>

type_synonym jsstring = "16 word list"

definition ascii :: "string \<Rightarrow> jsstring" where
  "ascii s = map (\<lambda>c. of_nat (of_char c)) s"

text \<open>
  The numbers \<open>JSON.parse\<close> can produce: a double \<open>m * 2 ^ e\<close>, negative zero, or an
  infinity (from a literal such as \<open>1e999\<close>; the flag is the sign). NaN has no JSON
  literal. Only their truthiness matters to the code.
\<close>

datatype jsnum = Dbl int int | NegZero | Inf bool

fun num_is_zero :: "jsnum \<Rightarrow> bool" where
  "num_is_zero (Dbl m e) = (m = 0)"
| "num_is_zero NegZero = True"
| "num_is_zero (Inf s) = False"

text \<open>
  The values \<open>res.json()\<close> resolves to. An object is the list of its own properties.
  \<open>undefined\<close> is not a JSON value: a JavaScript value is a \<open>json option\<close>, \<open>None\<close>
  being \<open>undefined\<close>.
\<close>

datatype json =
    JNull
  | JBool bool
  | JNum jsnum
  | JStr jsstring
  | JArr "json list"
  | JObj "(jsstring \<times> json) list"

type_synonym jsval = "json option"

text \<open>ToBoolean.\<close>

fun truthy :: "jsval \<Rightarrow> bool" where
  "truthy None = False"
| "truthy (Some JNull) = False"
| "truthy (Some (JBool b)) = b"
| "truthy (Some (JNum n)) = (\<not> num_is_zero n)"
| "truthy (Some (JStr s)) = (s \<noteq> [])"
| "truthy (Some (JArr xs)) = True"
| "truthy (Some (JObj kvs)) = True"

text \<open>An exception value; the code reads only its \<open>name\<close>.\<close>

datatype js_error = JsError (err_name: jsstring)

definition AbortError :: js_error where
  "AbortError = JsError (ascii ''AbortError'')"

definition TypeError :: js_error where
  "TypeError = JsError (ascii ''TypeError'')"

definition SyntaxError :: js_error where
  "SyntaxError = JsError (ascii ''SyntaxError'')"

subsection \<open>Property access\<close>

text \<open>
  The five property keys App.jsx reads from parsed JSON: \<open>.output\<close>, \<open>[0]\<close>,
  \<open>.generated_text\<close>, \<open>.text\<close> and \<open>.error\<close>.
\<close>

datatype pkey = Output | Index0 | GeneratedText | Text | ErrorField

fun prop_key :: "pkey \<Rightarrow> jsstring" where
  "prop_key Output = ascii ''output''"
| "prop_key Index0 = ascii ''0''"
| "prop_key GeneratedText = ascii ''generated_text''"
| "prop_key Text = ascii ''text''"
| "prop_key ErrorField = ascii ''error''"

text \<open>
  Reading one of these keys from a value that is neither \<open>null\<close> nor \<open>undefined\<close>.
  An object answers with its own property of that name (\<open>obj[0]\<close> is the property
  \<open>"0"\<close>); an array and a string have only the index; none of the five names is
  inherited from a prototype. A missing property reads as \<open>undefined\<close>.
\<close>

fun get_prop :: "json \<Rightarrow> pkey \<Rightarrow> jsval" where
  "get_prop (JObj kvs) p = map_of kvs (prop_key p)"
| "get_prop (JArr xs) p =
     (if p = Index0 then (case xs of [] \<Rightarrow> None | x # _ \<Rightarrow> Some x) else None)"
| "get_prop (JStr s) p =
     (if p = Index0 then (case s of [] \<Rightarrow> None | c # _ \<Rightarrow> Some (JStr [c])) else None)"
| "get_prop (JNum n) p = None"
| "get_prop (JBool b) p = None"
| "get_prop JNull p = None"

text \<open>\<open>base.p\<close>: a TypeError when the base is \<open>null\<close> or \<open>undefined\<close>.\<close>

fun member :: "jsval \<Rightarrow> pkey \<Rightarrow> js_error + jsval" where
  "member None p = Inl TypeError"
| "member (Some JNull) p = Inl TypeError"
| "member (Some v) p = Inr (get_prop v p)"

text \<open>\<open>base?.p\<close>: \<open>undefined\<close> when the base is \<open>null\<close> or \<open>undefined\<close>.\<close>

fun opt_member :: "jsval \<Rightarrow> pkey \<Rightarrow> jsval" where
  "opt_member None p = None"
| "opt_member (Some JNull) p = None"
| "opt_member (Some v) p = get_prop v p"

section \<open>Reply extraction (App.jsx, lines 56 to 65)\<close>

text \<open>
  \<open>JSON.stringify\<close> belongs to the runtime; the extraction takes it as the parameter
  \<open>S\<close>. \<open>slice(0, 2000)\<close> keeps the first 2000 code units.
\<close>

definition fallback_reply :: "(json \<Rightarrow> jsstring) \<Rightarrow> json \<Rightarrow> jsval" where
  "fallback_reply S data = Some (JStr (take 2000 (S data)))"

text \<open>\<open>data.output[0].p\<close>, each step of which may throw.\<close>

definition output0 :: "json \<Rightarrow> pkey \<Rightarrow> js_error + jsval" where
  "output0 data p =
     (case member (Some data) Output of
        Inl e \<Rightarrow> Inl e
      | Inr a \<Rightarrow>
          (case member a Index0 of
             Inl e \<Rightarrow> Inl e
           | Inr b \<Rightarrow> member b p))"

text \<open>\<open>data?.output?.[0]?.p\<close>.\<close>

definition opt_output0 :: "json \<Rightarrow> pkey \<Rightarrow> jsval" where
  "opt_output0 data p = opt_member (opt_member (opt_member (Some data) Output) Index0) p"

text \<open>The body of the inner \<open>try\<close>: the value assigned to \<open>reply\<close>, or the exception.\<close>

definition reply_try :: "(json \<Rightarrow> jsstring) \<Rightarrow> json \<Rightarrow> js_error + jsval" where
  "reply_try S data =
     (if truthy (opt_output0 data GeneratedText) then output0 data GeneratedText
      else if truthy (opt_output0 data Text) then output0 data Text
      else if (case data of JStr s \<Rightarrow> True | _ \<Rightarrow> False) then Inr (Some data)
      else Inr (fallback_reply S data))"

text \<open>The inner \<open>try\<close> with its \<open>catch (e)\<close>.\<close>

definition extract_reply :: "(json \<Rightarrow> jsstring) \<Rightarrow> json \<Rightarrow> jsval" where
  "extract_reply S data =
     (case reply_try S data of
        Inl e \<Rightarrow> fallback_reply S data
      | Inr reply \<Rightarrow> reply)"

section \<open>Trimming (\<open>String.prototype.trim\<close>)\<close>

text \<open>
  The code units \<open>trim\<close> strips: ECMAScript's WhiteSpace (tab, VT, FF, space, no-break
  space, U+1680, U+2000 to U+200A, U+202F, U+205F, U+3000, U+FEFF) and LineTerminator
  (LF, CR, U+2028, U+2029).
\<close>

definition ws_units :: "16 word list" where
  "ws_units =
     [0x0009, 0x000A, 0x000B, 0x000C, 0x000D, 0x0020, 0x00A0, 0x1680,
      0x2000, 0x2001, 0x2002, 0x2003, 0x2004, 0x2005, 0x2006, 0x2007,
      0x2008, 0x2009, 0x200A, 0x2028, 0x2029, 0x202F, 0x205F, 0x3000, 0xFEFF]"

definition is_ws :: "16 word \<Rightarrow> bool" where
  "is_ws c = (c \<in> set ws_units)"

definition trim :: "jsstring \<Rightarrow> jsstring" where
  "trim s = rev (dropWhile is_ws (rev (dropWhile is_ws s)))"

section \<open>The component's state and its surroundings\<close>

datatype role = User | Assistant

text \<open>
  A message \<open>{role, text}\<close>. The code stores in \<open>text\<close> whatever value the extraction
  yields, so the field holds a JavaScript value.
\<close>

record message =
  role :: role
  mtext :: jsval

datatype status = Idle | Warming | Ready

text \<open>
  What a \<open>fetch\<close> resolves to, as far as the code reads it: \<open>res.ok\<close> (true for a status
  from 200 to 299), \<open>res.statusText\<close>, and what \<open>res.json()\<close> settles with.
\<close>

record response =
  status_code :: nat
  statusText :: jsstring
  json_body :: "js_error + json"

definition ok :: "response \<Rightarrow> bool" where
  "ok res = (200 \<le> status_code res \<and> status_code res \<le> 299)"

type_synonym fetch_result = "js_error + response"

text \<open>A call of \<open>fetch\<close>; \<open>signal\<close> names the AbortController whose signal is passed.\<close>

record request =
  req_method :: jsstring
  url :: jsstring
  headers :: "(jsstring \<times> jsstring) list"
  body :: "jsstring option"
  signal :: "nat option"

datatype effect = AbortCall nat | Fetch request

text \<open>
  The parts of the runtime the code calls but does not define: \<open>JSON.stringify\<close>, the
  string conversion a template literal applies to a value that is not a string (it can
  throw, for an object whose own \<open>toString\<close> and \<open>valueOf\<close> are not callable), and the
  build-time variable \<open>VITE_BACKEND_URL\<close>.
\<close>

record runtime =
  JSON_stringify :: "json \<Rightarrow> jsstring"
  ToString :: "json \<Rightarrow> js_error + jsstring"
  VITE_BACKEND_URL :: "jsstring option"

text \<open>Line 7: the configured address, or the built-in one when it is unset or empty.\<close>

definition BACKEND :: "runtime \<Rightarrow> jsstring" where
  "BACKEND rt =
     (case VITE_BACKEND_URL rt of
        None \<Rightarrow> ascii ''https://arc-ai.onrender.com''
      | Some u \<Rightarrow> (if u \<noteq> [] then u else ascii ''https://arc-ai.onrender.com''))"

text \<open>
  The first five fields are the component's \<open>useState\<close> and \<open>useRef\<close> cells (a state
  setter is modelled as taking effect at once, in call order). An AbortController is named
  by the number of controllers created before it. The other fields record the
  surroundings: how many controllers exist, on which of them \<open>abort()\<close> has returned,
  which calls of \<open>sendMessage\<close> are suspended at an \<open>await\<close> (each named by its own
  controller), whether the start-up probe is pending, every call made to the outside,
  oldest first, and the exceptions thrown by state updaters when React ran them, after
  the call that passed them had returned.
\<close>

record app =
  input :: jsstring
  messages :: "message list"
  loading :: bool
  status :: status
  abortControllerRef :: "nat option"
  controllers :: nat
  aborted :: "nat list"
  awaiting :: "nat list"
  probing :: bool
  effects :: "effect list"
  updater_errors :: "js_error list"

text \<open>The state at the first render (lines 9 to 13).\<close>

definition initial :: app where
  "initial =
     \<lparr>input = [], messages = [], loading = False, status = Idle,
      abortControllerRef = None, controllers = 0, aborted = [], awaiting = [],
      probing = False, effects = [], updater_errors = []\<rparr>"

subsection \<open>Statements\<close>

text \<open>
  A statement maps a state to the exception it throws, if any, and the state it leaves.
\<close>

type_synonym stmt = "app \<Rightarrow> js_error option \<times> app"

definition upd :: "(app \<Rightarrow> app) \<Rightarrow> stmt" where
  "upd f w = (None, f w)"

definition seq :: "stmt \<Rightarrow> stmt \<Rightarrow> stmt" where
  "seq a b w = (case a w of (Some e, w') \<Rightarrow> (Some e, w') | (None, w') \<Rightarrow> b w')"

definition try_catch :: "stmt \<Rightarrow> (js_error \<Rightarrow> stmt) \<Rightarrow> stmt" where
  "try_catch a h w = (case a w of (Some e, w') \<Rightarrow> h e w' | (None, w') \<Rightarrow> (None, w'))"

definition try_finally :: "stmt \<Rightarrow> stmt \<Rightarrow> stmt" where
  "try_finally a f w =
     (case a w of
        (Some e, w') \<Rightarrow> (case f w' of (Some e', w'') \<Rightarrow> (Some e', w'') | (None, w'') \<Rightarrow> (Some e, w''))
      | (None, w') \<Rightarrow> f w')"

text \<open>\<open>setMessages(m => [...m, msg])\<close>.\<close>

definition append_message :: "message \<Rightarrow> stmt" where
  "append_message msg = upd (\<lambda>w. w\<lparr>messages := messages w @ [msg]\<rparr>)"

text \<open>
  \<open>setMessages(m => [...m, msg])\<close> where building \<open>msg\<close> inside the updater can throw.
  React runs the updater after \<open>setMessages\<close> has returned, so the exception is not thrown
  at the call: the statement completes, and nothing is appended.
\<close>

definition append_message_lazy :: "js_error + message \<Rightarrow> stmt" where
  "append_message_lazy r w =
     (case r of
        Inl e \<Rightarrow> (None, w\<lparr>updater_errors := updater_errors w @ [e]\<rparr>)
      | Inr msg \<Rightarrow> (None, w\<lparr>messages := messages w @ [msg]\<rparr>))"

definition do_fetch :: "request \<Rightarrow> stmt" where
  "do_fetch rq = upd (\<lambda>w. w\<lparr>effects := effects w @ [Fetch rq]\<rparr>)"

subsection \<open>The start-up probe (lines 15 to 26)\<close>

definition ping_request :: "runtime \<Rightarrow> request" where
  "ping_request rt =
     \<lparr>req_method = ascii ''GET'', url = BACKEND rt @ ascii ''/ping'', headers = [],
      body = None, signal = None\<rparr>"

text \<open>The effect up to its \<open>await\<close>; \<open>useEffect(..., [])\<close> runs it once, after the first render.\<close>

definition probe_start :: "runtime \<Rightarrow> stmt" where
  "probe_start rt =
     seq (upd (\<lambda>w. w\<lparr>status := Warming\<rparr>))
         (seq (do_fetch (ping_request rt)) (upd (\<lambda>w. w\<lparr>probing := True\<rparr>)))"

text \<open>The effect after its \<open>await\<close>: the \<open>try\<close> goes on, or the \<open>catch\<close> runs.\<close>

definition probe_resume :: "fetch_result \<Rightarrow> stmt" where
  "probe_resume r =
     try_catch
       (seq (\<lambda>w. case r of Inl e \<Rightarrow> (Some e, w) | Inr res \<Rightarrow> (None, w))
            (upd (\<lambda>w. w\<lparr>status := Ready\<rparr>)))
       (\<lambda>e. upd (\<lambda>w. w\<lparr>status := Idle\<rparr>))"

subsection \<open>\<open>sendMessage\<close> up to its first \<open>await\<close> (lines 29 to 48)\<close>

text \<open>
  \<open>abort()\<close> on controller \<open>h\<close>. What the call does is the surroundings' choice \<open>ab\<close>:
  it returns, and the signal is aborted, or it throws.
\<close>

definition abort_call :: "js_error option \<Rightarrow> nat \<Rightarrow> stmt" where
  "abort_call ab h w =
     (case ab of
        Some e \<Rightarrow> (Some e, w\<lparr>effects := effects w @ [AbortCall h]\<rparr>)
      | None \<Rightarrow> (None, w\<lparr>effects := effects w @ [AbortCall h], aborted := aborted w @ [h]\<rparr>))"

definition chat_request :: "runtime \<Rightarrow> jsstring \<Rightarrow> nat \<Rightarrow> request" where
  "chat_request rt prompt ac =
     \<lparr>req_method = ascii ''POST'', url = BACKEND rt @ ascii ''/chat'',
      headers = [(ascii ''Content-Type'', ascii ''application/json'')],
      body = Some (JSON_stringify rt (JObj [(ascii ''prompt'', JStr prompt)])),
      signal = Some ac\<rparr>"

definition sendMessage :: "runtime \<Rightarrow> js_error option \<Rightarrow> stmt" where
  "sendMessage rt ab w =
     (if trim (input w) = [] then (None, w)
      else
        (let prompt = trim (input w) in
         seq (append_message \<lparr>role = User, mtext = Some (JStr prompt)\<rparr>)
        (seq (upd (\<lambda>w. w\<lparr>input := []\<rparr>))
        (seq (upd (\<lambda>w. w\<lparr>loading := True\<rparr>))
        (seq (\<lambda>w. case abortControllerRef w of
                     None \<Rightarrow> (None, w)
                   | Some old \<Rightarrow> try_catch (abort_call ab old) (\<lambda>e. upd (\<lambda>w. w)) w)
             (\<lambda>w. let ac = controllers w in
                   seq (upd (\<lambda>w. w\<lparr>controllers := Suc ac\<rparr>))
                  (seq (upd (\<lambda>w. w\<lparr>abortControllerRef := Some ac\<rparr>))
                  (seq (do_fetch (chat_request rt prompt ac))
                       (upd (\<lambda>w. w\<lparr>awaiting := awaiting w @ [ac]\<rparr>)))) w))))) w)"

subsection \<open>\<open>sendMessage\<close> after the \<open>fetch\<close> has settled (lines 49 to 77)\<close>

definition warn :: jsstring where
  "warn = [0x26A0, 0xFE0F]"

definition cancelled_text :: jsstring where
  "cancelled_text = warn @ ascii '' Request cancelled (newer request arrived).''"

definition network_text :: jsstring where
  "network_text = warn @ ascii '' Network error or server error''"

text \<open>What a template literal makes of a value.\<close>

definition interpolate :: "runtime \<Rightarrow> jsval \<Rightarrow> js_error + jsstring" where
  "interpolate rt v =
     (case v of
        None \<Rightarrow> Inr (ascii ''undefined'')
      | Some (JStr s) \<Rightarrow> Inr s
      | Some j \<Rightarrow> ToString rt j)"

text \<open>Line 52: the template literal around \<open>err?.error || res.statusText\<close>.\<close>

definition error_text :: "runtime \<Rightarrow> jsval \<Rightarrow> jsstring \<Rightarrow> js_error + jsstring" where
  "error_text rt err st =
     (case interpolate rt
             (if truthy (opt_member err ErrorField) then opt_member err ErrorField
              else Some (JStr st)) of
        Inl e \<Rightarrow> Inl e
      | Inr s \<Rightarrow> Inr (warn @ ascii '' Error: '' @ s))"

text \<open>
  The \<open>try\<close> block from the point where the \<open>fetch\<close> settles with \<open>fr\<close>. A rejected
  \<open>await\<close> throws; \<open>res.json().catch(()=>null)\<close> turns a rejection into \<open>null\<close>.
  On line 52 the template literal stands inside the updater, so it is evaluated when React
  runs the updater; on line 66 \<open>reply\<close> has been computed before the call.
\<close>

definition after_fetch :: "runtime \<Rightarrow> fetch_result \<Rightarrow> stmt" where
  "after_fetch rt fr w =
     (case fr of
        Inl e \<Rightarrow> (Some e, w)
      | Inr res \<Rightarrow>
          (if \<not> ok res then
             (let err = (case json_body res of Inl e \<Rightarrow> Some JNull | Inr d \<Rightarrow> Some d) in
              append_message_lazy
                (case error_text rt err (statusText res) of
                   Inl e \<Rightarrow> Inl e
                 | Inr s \<Rightarrow> Inr \<lparr>role = Assistant, mtext = Some (JStr s)\<rparr>) w)
           else
             (case json_body res of
                Inl e \<Rightarrow> (Some e, w)
              | Inr data \<Rightarrow>
                  append_message
                    \<lparr>role = Assistant, mtext = extract_reply (JSON_stringify rt) data\<rparr> w)))"

text \<open>The \<open>catch (err)\<close> block.\<close>

definition on_catch :: "js_error \<Rightarrow> stmt" where
  "on_catch err =
     (if err_name err = ascii ''AbortError''
      then append_message \<lparr>role = Assistant, mtext = Some (JStr cancelled_text)\<rparr>
      else append_message \<lparr>role = Assistant, mtext = Some (JStr network_text)\<rparr>)"

text \<open>The \<open>finally\<close> block.\<close>

definition cleanup :: stmt where
  "cleanup =
     seq (upd (\<lambda>w. w\<lparr>loading := False\<rparr>)) (upd (\<lambda>w. w\<lparr>abortControllerRef := None\<rparr>))"

definition sendMessage_resume :: "runtime \<Rightarrow> fetch_result \<Rightarrow> stmt" where
  "sendMessage_resume rt fr = try_finally (try_catch (after_fetch rt fr) on_catch) cleanup"

section \<open>Runs of the component\<close>

text \<open>
  What can happen to a mounted component: the input field changes; \<open>sendMessage\<close> is
  called (the Enter key calls it whether or not the button is disabled); the exchange of
  the call that created controller \<open>ac\<close> settles; the probe settles. An event that
  cannot happen in the state (an exchange that is not pending) changes nothing.
\<close>

datatype event =
    Change jsstring
  | Send "js_error option"
  | Settle nat fetch_result
  | ProbeSettle fetch_result

definition step :: "runtime \<Rightarrow> event \<Rightarrow> app \<Rightarrow> app" where
  "step rt ev w =
     (case ev of
        Change s \<Rightarrow> w\<lparr>input := s\<rparr>
      | Send ab \<Rightarrow> snd (sendMessage rt ab w)
      | Settle ac fr \<Rightarrow>
          (if ac \<in> set (awaiting w)
           then snd (sendMessage_resume rt fr (w\<lparr>awaiting := removeAll ac (awaiting w)\<rparr>))
           else w)
      | ProbeSettle r \<Rightarrow>
          (if probing w then snd (probe_resume r (w\<lparr>probing := False\<rparr>)) else w))"

fun run :: "runtime \<Rightarrow> event list \<Rightarrow> app \<Rightarrow> app" where
  "run rt [] w = w"
| "run rt (ev # evs) w = run rt evs (step rt ev w)"

text \<open>The component once mounted: the first render, then the effect up to its \<open>await\<close>.\<close>

definition mounted :: "runtime \<Rightarrow> app" where
  "mounted rt = snd (probe_start rt initial)"

section \<open>The specification's reading of the reply extraction\<close>

text \<open>
  Following a path of property reads from a value; a missing step leaves \<open>undefined\<close>.
\<close>

fun at_path :: "jsval \<Rightarrow> pkey list \<Rightarrow> jsval" where
  "at_path v [] = v"
| "at_path None (p # ps) = None"
| "at_path (Some j) (p # ps) = at_path (get_prop j p) ps"

text \<open>
  The four-branch precedence as the specification words it: \<open>body.output[0].generated_text\<close>
  if present and truthy, else \<open>body.output[0].text\<close> if present and truthy, else the body
  itself if it is a string, else the body serialised and cut to 2000 characters.
\<close>

definition four_branch_reply :: "(json \<Rightarrow> jsstring) \<Rightarrow> json \<Rightarrow> jsval" where
  "four_branch_reply S d =
     (if truthy (at_path (Some d) [Output, Index0, GeneratedText])
      then at_path (Some d) [Output, Index0, GeneratedText]
      else if truthy (at_path (Some d) [Output, Index0, Text])
      then at_path (Some d) [Output, Index0, Text]
      else (case d of
              JStr s \<Rightarrow> Some (JStr s)
            | _ \<Rightarrow> Some (JStr (take 2000 (S d)))))"

section \<open>Observations on a state\<close>

text \<open>The GET requests among the calls made to the outside, oldest first.\<close>

fun get_requests :: "effect list \<Rightarrow> request list" where
  "get_requests [] = []"
| "get_requests (AbortCall h # xs) = get_requests xs"
| "get_requests (Fetch rq # xs) =
     (if req_method rq = ascii ''GET'' then rq # get_requests xs else get_requests xs)"

text \<open>
  How many messages of each role the log holds. A state is balanced when every user
  message is matched by an assistant message, by a call of \<open>sendMessage\<close> still
  suspended, or by an updater that threw, each suspended call being named once, by a
  controller that exists.
\<close>

definition users :: "app \<Rightarrow> nat" where
  "users w = length (filter (\<lambda>m. role m = User) (messages w))"

definition assistants :: "app \<Rightarrow> nat" where
  "assistants w = length (filter (\<lambda>m. role m = Assistant) (messages w))"

definition balanced :: "app \<Rightarrow> bool" where
  "balanced w =
     (distinct (awaiting w) \<and> list_all (\<lambda>h. h < controllers w) (awaiting w) \<and>
      users w = assistants w + length (awaiting w) + length (updater_errors w))"

section \<open>A runtime for evaluation\<close>

text \<open>
  The properties below hold for every runtime. Evaluating the model on a concrete input
  needs one: this one serialises as \<open>JSON.stringify\<close> does the empty object and converts
  as the template literal does an object, the only values the evaluations hand to it. An
  object with an own property \<open>toString\<close> cannot be converted: no parsed JSON value is
  callable, and the inherited \<open>valueOf\<close> returns the object, so the conversion throws a
  TypeError. Any other object converts to \<open>[object Object]\<close>.
\<close>

definition sample_runtime :: runtime where
  "sample_runtime =
     \<lparr>JSON_stringify = (\<lambda>j. ascii ''{}''),
      ToString =
        (\<lambda>j. case j of
               JObj kvs \<Rightarrow>
                 (if map_of kvs (ascii ''toString'') = None
                  then Inr (ascii ''[object Object]'') else Inl TypeError)
             | _ \<Rightarrow> Inr (ascii ''[object Object]'')),
      VITE_BACKEND_URL = None\<rparr>"

section \<open>Reply extraction: the code against the specification\<close>

lemma opt_member_get: "opt_member (Some j) p = get_prop j p"
  by (cases j) simp_all

lemma member_defined: "opt_member v p \<noteq> None \<Longrightarrow> member v p = Inr (opt_member v p)"
  by (cases "(v, p)" rule: member.cases) simp_all

lemma output0_defined:
  assumes "opt_output0 d p \<noteq> None"
  shows "output0 d p = Inr (opt_output0 d p)"
proof -
  let ?a = "opt_member (Some d) Output"
  let ?b = "opt_member ?a Index0"
  from assms have c: "opt_member ?b p \<noteq> None"
    by (simp add: opt_output0_def)
  then have b: "?b \<noteq> None" by (cases ?b) simp_all
  then have a: "?a \<noteq> None" by (cases ?a) simp_all
  have "member (Some d) Output = Inr ?a" using a by (rule member_defined)
  moreover have "member ?a Index0 = Inr ?b" using b by (rule member_defined)
  moreover have "member ?b p = Inr (opt_member ?b p)" using c by (rule member_defined)
  ultimately show ?thesis
    by (simp add: output0_def opt_output0_def)
qed

lemma truthy_defined: "truthy v \<Longrightarrow> v \<noteq> None"
  by (cases v) simp_all

lemma opt_output0_path: "opt_output0 d p = at_path (Some d) [Output, Index0, p]"
proof -
  have step: "\<And>v q. opt_member v q = (case v of None \<Rightarrow> None | Some j \<Rightarrow> get_prop j q)"
    by (simp add: opt_member_get split: option.splits)
  show ?thesis
    by (simp add: opt_output0_def step split: option.splits)
qed

lemma reply_try_never_throws: "\<exists>v. reply_try S d = Inr v"
  by (simp add: reply_try_def output0_defined truthy_defined)

lemma four_branch_reply_chain:
  "four_branch_reply S d =
     (if truthy (opt_output0 d GeneratedText) then opt_output0 d GeneratedText
      else if truthy (opt_output0 d Text) then opt_output0 d Text
      else (case d of
              JStr s \<Rightarrow> Some (JStr s)
            | _ \<Rightarrow> Some (JStr (take 2000 (S d)))))"
  by (simp only: four_branch_reply_def opt_output0_path)

lemma extract_reply_refines: "extract_reply S d = four_branch_reply S d"
proof (cases "truthy (opt_output0 d GeneratedText)")
  case True
  then show ?thesis
    by (simp add: extract_reply_def reply_try_def four_branch_reply_chain
          output0_defined truthy_defined)
next
  case gen: False
  show ?thesis
  proof (cases "truthy (opt_output0 d Text)")
    case True
    with gen show ?thesis
      by (simp add: extract_reply_def reply_try_def four_branch_reply_chain
            output0_defined truthy_defined)
  next
    case False
    with gen show ?thesis
      by (cases d)
         (simp_all add: extract_reply_def reply_try_def four_branch_reply_chain
            fallback_reply_def)
  qed
qed


section \<open>What one call of \<open>sendMessage\<close> does\<close>

lemmas stmt_defs = seq_def upd_def try_catch_def try_finally_def append_message_def
  append_message_lazy_def do_fetch_def

lemma all_ws_trim:
  assumes "list_all is_ws s"
  shows "trim s = []"
proof -
  from assms have d: "dropWhile is_ws s = []"
    by (induction s) simp_all
  show ?thesis by (simp add: trim_def d)
qed

lemma sendMessage_noop: "trim (input w) = [] \<Longrightarrow> sendMessage rt ab w = (None, w)"
  by (simp add: sendMessage_def)

lemma sendMessage_accepted:
  assumes "trim (input w) \<noteq> []"
  shows "sendMessage rt ab w =
    (None, w\<lparr>input := [],
              messages := messages w @ [\<lparr>role = User, mtext = Some (JStr (trim (input w)))\<rparr>],
              loading := True,
              abortControllerRef := Some (controllers w),
              controllers := Suc (controllers w),
              aborted := (case abortControllerRef w of
                            None \<Rightarrow> aborted w
                          | Some old \<Rightarrow> (case ab of None \<Rightarrow> aborted w @ [old] | Some e \<Rightarrow> aborted w)),
              awaiting := awaiting w @ [controllers w],
              effects := effects w @
                 (case abortControllerRef w of None \<Rightarrow> [] | Some old \<Rightarrow> [AbortCall old]) @
                 [Fetch (chat_request rt (trim (input w)) (controllers w))]\<rparr>)"
  using assms
  by (simp add: sendMessage_def stmt_defs abort_call_def Let_def split: option.splits)

lemma on_catch_appends:
  "on_catch e w =
     (None, w\<lparr>messages := messages w @
        [\<lparr>role = Assistant,
          mtext = Some (JStr (if err_name e = ascii ''AbortError'' then cancelled_text
                              else network_text))\<rparr>]\<rparr>)"
  by (simp add: on_catch_def stmt_defs)

lemma after_fetch_cases:
  "(\<exists>e. after_fetch rt fr w = (Some e, w)) \<or>
   (\<exists>m. role m = Assistant \<and> after_fetch rt fr w = (None, w\<lparr>messages := messages w @ [m]\<rparr>)) \<or>
   (\<exists>e. after_fetch rt fr w = (None, w\<lparr>updater_errors := updater_errors w @ [e]\<rparr>))"
  by (force simp add: after_fetch_def stmt_defs Let_def split: sum.splits)

text \<open>
  Every settlement ends without an exception, with \<open>loading\<close> false and the slot empty,
  and with one of two things added: an assistant message, or the exception of an updater.
\<close>

lemma resume_settles:
  "\<exists>ms es. length ms + length es = 1 \<and> list_all (\<lambda>m. role m = Assistant) ms \<and>
     sendMessage_resume rt fr w =
       (None, w\<lparr>messages := messages w @ ms, updater_errors := updater_errors w @ es,
                loading := False, abortControllerRef := None\<rparr>)"
proof -
  from after_fetch_cases [of rt fr w]
  consider (throws) e where "after_fetch rt fr w = (Some e, w)"
    | (appends) m where "role m = Assistant"
        "after_fetch rt fr w = (None, w\<lparr>messages := messages w @ [m]\<rparr>)"
    | (updater) e where
        "after_fetch rt fr w = (None, w\<lparr>updater_errors := updater_errors w @ [e]\<rparr>)"
    by blast
  then show ?thesis
  proof cases
    case throws
    let ?m = "\<lparr>role = Assistant,
      mtext = Some (JStr (if err_name e = ascii ''AbortError'' then cancelled_text
                          else network_text))\<rparr>"
    from throws have "try_catch (after_fetch rt fr) on_catch w = on_catch e w"
      by (simp add: try_catch_def)
    then have "try_catch (after_fetch rt fr) on_catch w =
        (None, w\<lparr>messages := messages w @ [?m]\<rparr>)"
      by (simp only: on_catch_appends)
    then have "sendMessage_resume rt fr w =
       (None, w\<lparr>messages := messages w @ [?m], updater_errors := updater_errors w @ [],
                loading := False, abortControllerRef := None\<rparr>)"
      by (simp add: sendMessage_resume_def try_finally_def cleanup_def seq_def upd_def)
    then show ?thesis
      by (intro exI [of _ "[?m]"] exI [of _ "[]"]) simp
  next
    case appends
    then have "sendMessage_resume rt fr w =
       (None, w\<lparr>messages := messages w @ [m], updater_errors := updater_errors w @ [],
                loading := False, abortControllerRef := None\<rparr>)"
      by (simp add: sendMessage_resume_def try_finally_def try_catch_def cleanup_def seq_def
            upd_def)
    with appends show ?thesis
      by (intro exI [of _ "[m]"] exI [of _ "[]"]) simp
  next
    case updater
    then have "sendMessage_resume rt fr w =
       (None, w\<lparr>messages := messages w @ [], updater_errors := updater_errors w @ [e],
                loading := False, abortControllerRef := None\<rparr>)"
      by (simp add: sendMessage_resume_def try_finally_def try_catch_def cleanup_def seq_def
            upd_def)
    then show ?thesis
      by (intro exI [of _ "[]"] exI [of _ "[e]"]) simp
  qed
qed

lemma resume_success:
  assumes "ok res" and "json_body res = Inr d"
  shows "sendMessage_resume rt (Inr res) w =
           (None, w\<lparr>messages := messages w @
                      [\<lparr>role = Assistant, mtext = extract_reply (JSON_stringify rt) d\<rparr>],
                    loading := False, abortControllerRef := None\<rparr>)"
  using assms
  by (simp add: sendMessage_resume_def after_fetch_def cleanup_def stmt_defs)

text \<open>
  Claim C3. When the response has a success status and its body parses to \<open>d\<close>, the
  continuation appends one assistant message whose text is the specification's four-branch
  precedence applied to \<open>d\<close>: \<open>d.output[0].generated_text\<close> if truthy, else
  \<open>d.output[0].text\<close> if truthy, else \<open>d\<close> itself if it is a string, else the first 2000
  code units of \<open>JSON.stringify(d)\<close>. The inner \<open>catch\<close> never changes the result. The body
  \<open>{"output":[{"generated_text":"hi"}]}\<close> yields exactly \<open>"hi"\<close>.
\<close>

theorem reply_four_branch_precedence:
  assumes "ok res" and "json_body res = Inr d"
  shows "sendMessage_resume rt (Inr res) w =
           (None, w\<lparr>messages := messages w @
                      [\<lparr>role = Assistant, mtext = four_branch_reply (JSON_stringify rt) d\<rparr>],
                    loading := False, abortControllerRef := None\<rparr>)
         \<and> extract_reply S
             (JObj [(ascii ''output'', JArr [JObj [(ascii ''generated_text'', JStr (ascii ''hi''))]])])
           = Some (JStr (ascii ''hi''))"
proof
  show "sendMessage_resume rt (Inr res) w =
           (None, w\<lparr>messages := messages w @
                      [\<lparr>role = Assistant, mtext = four_branch_reply (JSON_stringify rt) d\<rparr>],
                    loading := False, abortControllerRef := None\<rparr>)"
    using resume_success [OF assms] by (simp only: extract_reply_refines)
  show "extract_reply S
          (JObj [(ascii ''output'', JArr [JObj [(ascii ''generated_text'', JStr (ascii ''hi''))]])])
        = Some (JStr (ascii ''hi''))"
    by (simp add: extract_reply_refines four_branch_reply_def ascii_def)
qed

theorem reply_four_branch_precedence_witness:
  "ok \<lparr>status_code = 200, statusText = ascii ''OK'', json_body = Inr (JObj [])\<rparr>
   \<and> json_body \<lparr>status_code = 200, statusText = ascii ''OK'', json_body = Inr (JObj [])\<rparr>
       = Inr (JObj [])
   \<and> messages (snd (sendMessage_resume sample_runtime
         (Inr \<lparr>status_code = 200, statusText = ascii ''OK'', json_body = Inr (JObj [])\<rparr>)
         initial))
       = [\<lparr>role = Assistant, mtext = Some (JStr (ascii ''{}''))\<rparr>]"
proof -
  have h1: "ok \<lparr>status_code = 200, statusText = ascii ''OK'', json_body = Inr (JObj [])\<rparr>"
    by (simp add: ok_def)
  have h2: "json_body \<lparr>status_code = 200, statusText = ascii ''OK'', json_body = Inr (JObj [])\<rparr>
       = Inr (JObj [])"
    by simp
  show ?thesis
    using h1 h2 reply_four_branch_precedence [OF h1 h2, of sample_runtime initial]
    by (simp add: four_branch_reply_def sample_runtime_def initial_def ascii_def)
qed

text \<open>
  Claim C9. When the input field holds only whitespace, or nothing, \<open>sendMessage\<close> returns
  at once without throwing and leaves the whole state as it was: no message, no request or
  other call to the outside, \<open>loading\<close> and \<open>abortControllerRef\<close> untouched.
\<close>

theorem whitespace_submit_is_noop:
  assumes "list_all is_ws (input w)"
  shows "sendMessage rt ab w = (None, w) \<and> step rt (Send ab) w = w"
proof -
  from assms have "trim (input w) = []"
    by (rule all_ws_trim)
  then have call: "sendMessage rt ab w = (None, w)"
    by (rule sendMessage_noop)
  then have "step rt (Send ab) w = w"
    by (simp add: step_def)
  with call show ?thesis by simp
qed

theorem whitespace_submit_is_noop_witness:
  "list_all is_ws (input (initial\<lparr>input := [0x20, 0x09, 0x0A, 0x3000]\<rparr>))
   \<and> sendMessage sample_runtime None (initial\<lparr>input := [0x20, 0x09, 0x0A, 0x3000]\<rparr>)
       = (None, initial\<lparr>input := [0x20, 0x09, 0x0A, 0x3000]\<rparr>)
   \<and> step sample_runtime (Send None) (initial\<lparr>input := [0x20, 0x09, 0x0A, 0x3000]\<rparr>)
       = initial\<lparr>input := [0x20, 0x09, 0x0A, 0x3000]\<rparr>"
proof -
  have h: "list_all is_ws (input (initial\<lparr>input := [0x20, 0x09, 0x0A, 0x3000]\<rparr>))"
    by (simp add: is_ws_def ws_units_def)
  show ?thesis
    using h whitespace_submit_is_noop [OF h, of sample_runtime None] by simp
qed




section \<open>Steps and runs\<close>

lemma step_Change: "step rt (Change s) w = w\<lparr>input := s\<rparr>"
  by (simp add: step_def)

lemma step_Send_noop: "trim (input w) = [] \<Longrightarrow> step rt (Send ab) w = w"
  by (simp add: step_def sendMessage_noop)

lemma step_Send_accepted:
  "trim (input w) \<noteq> [] \<Longrightarrow>
   step rt (Send ab) w =
     w\<lparr>input := [],
       messages := messages w @ [\<lparr>role = User, mtext = Some (JStr (trim (input w)))\<rparr>],
       loading := True,
       abortControllerRef := Some (controllers w),
       controllers := Suc (controllers w),
       aborted := (case abortControllerRef w of
                     None \<Rightarrow> aborted w
                   | Some old \<Rightarrow> (case ab of None \<Rightarrow> aborted w @ [old] | Some e \<Rightarrow> aborted w)),
       awaiting := awaiting w @ [controllers w],
       effects := effects w @
          (case abortControllerRef w of None \<Rightarrow> [] | Some old \<Rightarrow> [AbortCall old]) @
          [Fetch (chat_request rt (trim (input w)) (controllers w))]\<rparr>"
  by (simp add: step_def sendMessage_accepted)

lemma step_Settle_stale: "ac \<notin> set (awaiting w) \<Longrightarrow> step rt (Settle ac fr) w = w"
  by (simp add: step_def)

lemma step_Settle:
  assumes "ac \<in> set (awaiting w)"
  shows "\<exists>ms es. length ms + length es = 1 \<and> list_all (\<lambda>m. role m = Assistant) ms \<and>
    step rt (Settle ac fr) w =
      w\<lparr>awaiting := removeAll ac (awaiting w), messages := messages w @ ms,
        updater_errors := updater_errors w @ es,
        loading := False, abortControllerRef := None\<rparr>"
proof -
  from resume_settles [of rt fr "w\<lparr>awaiting := removeAll ac (awaiting w)\<rparr>"]
  obtain ms es where "length ms + length es = 1"
    and "list_all (\<lambda>m. role m = Assistant) ms"
    and "sendMessage_resume rt fr (w\<lparr>awaiting := removeAll ac (awaiting w)\<rparr>) =
      (None, w\<lparr>awaiting := removeAll ac (awaiting w), messages := messages w @ ms,
        updater_errors := updater_errors w @ es,
        loading := False, abortControllerRef := None\<rparr>)"
    by auto
  with assms show ?thesis by (auto simp add: step_def)
qed

lemma probe_resume_fulfilled: "probe_resume (Inr res) w = (None, w\<lparr>status := Ready\<rparr>)"
  by (simp add: probe_resume_def stmt_defs)

lemma probe_resume_rejected: "probe_resume (Inl e) w = (None, w\<lparr>status := Idle\<rparr>)"
  by (simp add: probe_resume_def stmt_defs)

lemma step_ProbeSettle_stale: "\<not> probing w \<Longrightarrow> step rt (ProbeSettle r) w = w"
  by (simp add: step_def)

lemma step_ProbeSettle:
  "probing w \<Longrightarrow>
   step rt (ProbeSettle r) w =
     w\<lparr>probing := False, status := (case r of Inl e \<Rightarrow> Idle | Inr res \<Rightarrow> Ready)\<rparr>"
  by (cases r) (simp_all add: step_def probe_resume_fulfilled probe_resume_rejected)

lemma run_append: "run rt (evs @ evs') w = run rt evs' (run rt evs w)"
  by (induction evs arbitrary: w) simp_all

text \<open>The log only grows.\<close>

lemma step_messages: "\<exists>ms. messages (step rt ev w) = messages w @ ms"
proof (cases ev)
  case (Change s)
  then show ?thesis by (simp add: step_Change)
next
  case (Send ab)
  then show ?thesis
    by (cases "trim (input w) = []") (simp_all add: step_Send_noop step_Send_accepted)
next
  case (Settle ac fr)
  show ?thesis
  proof (cases "ac \<in> set (awaiting w)")
    case True
    from step_Settle [OF True, of rt fr] obtain ms es where
      "step rt (Settle ac fr) w =
        w\<lparr>awaiting := removeAll ac (awaiting w), messages := messages w @ ms,
          updater_errors := updater_errors w @ es,
          loading := False, abortControllerRef := None\<rparr>" by blast
    with Settle show ?thesis by simp
  next
    case False
    with Settle show ?thesis by (simp add: step_Settle_stale)
  qed
next
  case (ProbeSettle r)
  then show ?thesis
    by (cases "probing w") (simp_all add: step_ProbeSettle step_ProbeSettle_stale)
qed

lemma run_messages: "\<exists>ms. messages (run rt evs w) = messages w @ ms"
proof (induction evs arbitrary: w)
  case Nil
  show ?case by simp
next
  case (Cons ev evs)
  from step_messages [of rt ev w] obtain ms where
    a: "messages (step rt ev w) = messages w @ ms" ..
  from Cons.IH [of "step rt ev w"] obtain ms' where
    b: "messages (run rt evs (step rt ev w)) = messages (step rt ev w) @ ms'" ..
  from a b show ?case by simp
qed

lemma length_removeAll_distinct:
  "distinct xs \<Longrightarrow> x \<in> set xs \<Longrightarrow> Suc (length (removeAll x xs)) = length xs"
  by (induction xs) auto

lemma balanced_step:
  assumes "balanced w"
  shows "balanced (step rt ev w)"
proof (cases ev)
  case (Change s)
  with assms show ?thesis by (simp add: step_Change balanced_def users_def assistants_def)
next
  case (Send ab)
  show ?thesis
  proof (cases "trim (input w) = []")
    case True
    with Send assms show ?thesis by (simp add: step_Send_noop)
  next
    case False
    with Send assms show ?thesis
      by (auto simp add: step_Send_accepted balanced_def users_def assistants_def list_all_iff)
  qed
next
  case (Settle ac fr)
  show ?thesis
  proof (cases "ac \<in> set (awaiting w)")
    case True
    from step_Settle [OF True, of rt fr] obtain ms es
      where one: "length ms + length es = 1"
      and ms: "list_all (\<lambda>m. role m = Assistant) ms"
      and st: "step rt (Settle ac fr) w =
        w\<lparr>awaiting := removeAll ac (awaiting w), messages := messages w @ ms,
          updater_errors := updater_errors w @ es,
          loading := False, abortControllerRef := None\<rparr>" by blast
    from ms have fu: "filter (\<lambda>m. role m = User) ms = []"
      and fa: "filter (\<lambda>m. role m = Assistant) ms = ms"
      by (induction ms) simp_all
    from assms True have "Suc (length (removeAll ac (awaiting w))) = length (awaiting w)"
      by (simp add: balanced_def length_removeAll_distinct)
    with assms one show ?thesis
      by (simp add: Settle st balanced_def users_def assistants_def list_all_iff
            distinct_removeAll fu fa)
  next
    case False
    with Settle assms show ?thesis by (simp add: step_Settle_stale)
  qed
next
  case (ProbeSettle r)
  with assms show ?thesis
    by (cases "probing w")
       (simp_all add: step_ProbeSettle step_ProbeSettle_stale balanced_def users_def
          assistants_def)
qed

lemma balanced_run: "balanced w \<Longrightarrow> balanced (run rt evs w)"
  by (induction evs arbitrary: w) (simp_all add: balanced_step)

lemma mounted_eq:
  "mounted rt = initial\<lparr>status := Warming, effects := [Fetch (ping_request rt)], probing := True\<rparr>"
  by (simp add: mounted_def probe_start_def stmt_defs initial_def)

lemma balanced_mounted: "balanced (mounted rt)"
  by (simp add: mounted_eq balanced_def users_def assistants_def initial_def)

text \<open>Status and the probe.\<close>

lemma step_settled_status:
  "\<not> probing w \<Longrightarrow> \<not> probing (step rt ev w) \<and> status (step rt ev w) = status w"
proof (cases ev)
  case (Change s)
  assume "\<not> probing w"
  with Change show ?thesis by (simp add: step_Change)
next
  case (Send ab)
  assume "\<not> probing w"
  with Send show ?thesis
    by (cases "trim (input w) = []") (simp_all add: step_Send_noop step_Send_accepted)
next
  case (Settle ac fr)
  assume p: "\<not> probing w"
  show ?thesis
  proof (cases "ac \<in> set (awaiting w)")
    case True
    from step_Settle [OF True, of rt fr] obtain ms es where
      "step rt (Settle ac fr) w =
        w\<lparr>awaiting := removeAll ac (awaiting w), messages := messages w @ ms,
          updater_errors := updater_errors w @ es,
          loading := False, abortControllerRef := None\<rparr>" by blast
    with Settle p show ?thesis by simp
  next
    case False
    with Settle p show ?thesis by (simp add: step_Settle_stale)
  qed
next
  case (ProbeSettle r)
  assume "\<not> probing w"
  with ProbeSettle show ?thesis by (simp add: step_ProbeSettle_stale)
qed

lemma run_settled_status:
  "\<not> probing w \<Longrightarrow> \<not> probing (run rt evs w) \<and> status (run rt evs w) = status w"
proof (induction evs arbitrary: w)
  case Nil
  then show ?case by simp
next
  case (Cons ev evs)
  from step_settled_status [OF Cons.prems, of rt ev]
  have a: "\<not> probing (step rt ev w)" and b: "status (step rt ev w) = status w" by simp_all
  from Cons.IH [OF a] b show ?case by simp
qed

lemma step_warming_probing:
  assumes "status w = Warming \<longrightarrow> probing w"
  shows "status (step rt ev w) = Warming \<longrightarrow> probing (step rt ev w)"
proof (cases "probing w")
  case False
  with assms step_settled_status [OF False, of rt ev] show ?thesis by simp
next
  case True
  show ?thesis
  proof (cases ev)
    case (Change s)
    with True show ?thesis by (simp add: step_Change)
  next
    case (Send ab)
    with True show ?thesis
      by (cases "trim (input w) = []") (simp_all add: step_Send_noop step_Send_accepted)
  next
    case (Settle ac fr)
    show ?thesis
    proof (cases "ac \<in> set (awaiting w)")
      case in_flight: True
      from step_Settle [OF in_flight, of rt fr] obtain ms es where
        "step rt (Settle ac fr) w =
          w\<lparr>awaiting := removeAll ac (awaiting w), messages := messages w @ ms,
            updater_errors := updater_errors w @ es,
            loading := False, abortControllerRef := None\<rparr>" by blast
      with Settle True show ?thesis by simp
    next
      case False
      with Settle True show ?thesis by (simp add: step_Settle_stale)
    qed
  next
    case (ProbeSettle r)
    with True show ?thesis by (cases r) (simp_all add: step_ProbeSettle)
  qed
qed

lemma run_warming_probing:
  "status w = Warming \<longrightarrow> probing w \<Longrightarrow>
   status (run rt evs w) = Warming \<longrightarrow> probing (run rt evs w)"
proof (induction evs arbitrary: w)
  case Nil
  then show ?case by simp
next
  case (Cons ev evs)
  from step_warming_probing [OF Cons.prems, of rt ev]
  have "status (step rt ev w) = Warming \<longrightarrow> probing (step rt ev w)" .
  from Cons.IH [OF this] show ?case by simp
qed

lemma after_probe_not_warming:
  "status (run rt (evs @ ProbeSettle r # evs') (mounted rt)) \<noteq> Warming"
proof -
  let ?w1 = "run rt evs (mounted rt)"
  let ?w2 = "step rt (ProbeSettle r) ?w1"
  have inv: "status ?w1 = Warming \<longrightarrow> probing ?w1"
    by (rule run_warming_probing) (simp add: mounted_eq)
  have "\<not> probing ?w2 \<and> status ?w2 \<noteq> Warming"
  proof (cases "probing ?w1")
    case True
    then show ?thesis by (cases r) (simp_all add: step_ProbeSettle)
  next
    case False
    with inv show ?thesis by (simp add: step_ProbeSettle_stale)
  qed
  then have p: "\<not> probing ?w2" and s: "status ?w2 \<noteq> Warming" by simp_all
  from run_settled_status [OF p, of rt evs'] s
  have "status (run rt evs' ?w2) \<noteq> Warming" by simp
  then show ?thesis by (simp add: run_append)
qed

text \<open>GET requests.\<close>

lemma get_requests_append: "get_requests (xs @ ys) = get_requests xs @ get_requests ys"
  by (induction xs rule: get_requests.induct) simp_all

lemma chat_request_not_get: "req_method (chat_request rt p ac) \<noteq> ascii ''GET''"
  by (simp add: chat_request_def ascii_def)

lemma step_get_requests: "get_requests (effects (step rt ev w)) = get_requests (effects w)"
proof (cases ev)
  case (Change s)
  then show ?thesis by (simp add: step_Change)
next
  case (Send ab)
  then show ?thesis
    by (cases "trim (input w) = []")
       (simp_all add: step_Send_noop step_Send_accepted get_requests_append
          chat_request_not_get split: option.splits)
next
  case (Settle ac fr)
  show ?thesis
  proof (cases "ac \<in> set (awaiting w)")
    case True
    from step_Settle [OF True, of rt fr] obtain ms es where
      "step rt (Settle ac fr) w =
        w\<lparr>awaiting := removeAll ac (awaiting w), messages := messages w @ ms,
          updater_errors := updater_errors w @ es,
          loading := False, abortControllerRef := None\<rparr>" by blast
    with Settle show ?thesis by simp
  next
    case False
    with Settle show ?thesis by (simp add: step_Settle_stale)
  qed
next
  case (ProbeSettle r)
  then show ?thesis
    by (cases "probing w") (simp_all add: step_ProbeSettle step_ProbeSettle_stale)
qed

lemma run_get_requests: "get_requests (effects (run rt evs w)) = get_requests (effects w)"
  by (induction evs arbitrary: w) (simp_all add: step_get_requests)


section \<open>Overlapping submissions\<close>

text \<open>
  What holds of the busy flag and the slot one call at a time: an accepted call sets
  \<open>loading\<close> and puts its own controller in the slot; every settlement, whatever the
  outcome, clears both without throwing.
\<close>

lemma accepted_call_sets_loading:
  "trim (input w) \<noteq> [] \<Longrightarrow>
   loading (snd (sendMessage rt ab w)) \<and>
   abortControllerRef (snd (sendMessage rt ab w)) = Some (controllers w)"
  by (simp add: sendMessage_accepted)

lemma settlement_clears_loading:
  "fst (sendMessage_resume rt fr w) = None \<and>
   \<not> loading (snd (sendMessage_resume rt fr w)) \<and>
   abortControllerRef (snd (sendMessage_resume rt fr w)) = None"
proof -
  from resume_settles [of rt fr w] obtain ms es where
    "sendMessage_resume rt fr w =
       (None, w\<lparr>messages := messages w @ ms, updater_errors := updater_errors w @ es,
                loading := False, abortControllerRef := None\<rparr>)"
    by blast
  then show ?thesis by simp
qed

text \<open>
  Claim C1. The run: type \<open>a\<close>, submit, type \<open>b\<close>, submit while the first exchange is
  pending, then the first exchange settles with the AbortError its cancellation causes.
  Before that settlement \<open>abortControllerRef\<close> holds the second call's controller 1; the
  \<open>finally\<close> block of the first call sets it to \<open>null\<close> although the second exchange is
  still pending. A third submission then finds the slot empty: \<open>abort()\<close> is never called
  on controller 1, and two exchanges are pending side by side.
\<close>

theorem stale_settlement_clears_newer_handle:
  "abortControllerRef
     (run rt [Change (ascii ''a''), Send None, Change (ascii ''b''), Send None] (mounted rt))
     = Some 1
   \<and> awaiting
     (run rt [Change (ascii ''a''), Send None, Change (ascii ''b''), Send None] (mounted rt))
     = [0, 1]
   \<and> abortControllerRef
     (run rt [Change (ascii ''a''), Send None, Change (ascii ''b''), Send None,
              Settle 0 (Inl AbortError)] (mounted rt))
     = None
   \<and> awaiting
     (run rt [Change (ascii ''a''), Send None, Change (ascii ''b''), Send None,
              Settle 0 (Inl AbortError)] (mounted rt))
     = [1]
   \<and> awaiting
     (run rt [Change (ascii ''a''), Send None, Change (ascii ''b''), Send None,
              Settle 0 (Inl AbortError), Change (ascii ''c''), Send None] (mounted rt))
     = [1, 2]
   \<and> aborted
     (run rt [Change (ascii ''a''), Send None, Change (ascii ''b''), Send None,
              Settle 0 (Inl AbortError), Change (ascii ''c''), Send None] (mounted rt))
     = [0]"
  by (simp add: step_def sendMessage_def sendMessage_resume_def after_fetch_def on_catch_def
        cleanup_def abort_call_def stmt_defs mounted_eq initial_def trim_def is_ws_def
        ws_units_def ascii_def AbortError_def Let_def)

text \<open>
  Claim C2. In the same run \<open>loading\<close> is true after the second submission, and the
  \<open>finally\<close> block of the first, cancelled call sets it to false while the second
  exchange is still pending.
\<close>

theorem busy_cleared_while_newer_exchange_in_flight:
  "loading
     (run rt [Change (ascii ''a''), Send None, Change (ascii ''b''), Send None] (mounted rt))
   \<and> \<not> loading
     (run rt [Change (ascii ''a''), Send None, Change (ascii ''b''), Send None,
              Settle 0 (Inl AbortError)] (mounted rt))
   \<and> awaiting
     (run rt [Change (ascii ''a''), Send None, Change (ascii ''b''), Send None,
              Settle 0 (Inl AbortError)] (mounted rt))
     = [1]"
  by (simp add: step_def sendMessage_def sendMessage_resume_def after_fetch_def on_catch_def
        cleanup_def abort_call_def stmt_defs mounted_eq initial_def trim_def is_ws_def
        ws_units_def ascii_def AbortError_def Let_def)

section \<open>The message log\<close>

text \<open>
  What holds of the log for every call and every run. An accepted call appends one user
  message, carrying the trimmed text. A cancelled exchange appends the cancellation
  notice. Over any run the earlier log is a prefix of the later one (\<open>run_messages\<close>).
  In every state a mounted component can reach, the user messages are as many as the
  assistant messages, the exchanges still pending and the updaters that threw, together.
\<close>

lemma accepted_call_appends_user_message:
  "trim (input w) \<noteq> [] \<Longrightarrow>
   messages (snd (sendMessage rt ab w)) =
     messages w @ [\<lparr>role = User, mtext = Some (JStr (trim (input w)))\<rparr>]"
  by (simp add: sendMessage_accepted)

lemma cancelled_exchange_appends_notice:
  "messages (snd (sendMessage_resume rt (Inl AbortError) w)) =
     messages w @ [\<lparr>role = Assistant, mtext = Some (JStr cancelled_text)\<rparr>]"
  by (simp add: sendMessage_resume_def after_fetch_def on_catch_def cleanup_def stmt_defs
        AbortError_def)

lemma reachable_balanced:
  "users (run rt evs (mounted rt)) =
     assistants (run rt evs (mounted rt)) + length (awaiting (run rt evs (mounted rt))) +
     length (updater_errors (run rt evs (mounted rt)))"
  using balanced_run [of "mounted rt" rt evs, OF balanced_mounted] by (simp add: balanced_def)

text \<open>
  A failure status with an \<open>error\<close> field whose conversion throws: the updater of line 52
  throws when React runs it, the \<open>catch\<close> of \<open>sendMessage\<close> does not see the exception,
  and the exchange settles with no assistant message.
\<close>

lemma resume_updater_throws:
  assumes "\<not> ok res"
    and "error_text rt (case json_body res of Inl e \<Rightarrow> Some JNull | Inr d \<Rightarrow> Some d)
           (statusText res) = Inl e"
  shows "sendMessage_resume rt (Inr res) w =
     (None, w\<lparr>updater_errors := updater_errors w @ [e],
              loading := False, abortControllerRef := None\<rparr>)"
  using assms
  by (simp add: sendMessage_resume_def after_fetch_def cleanup_def stmt_defs Let_def)

text \<open>
  Claim C4. The run: type \<open>a\<close>, submit, and the exchange settles with a response of status
  500 whose body is \<open>{"error":{"toString":1}}\<close>. The \<open>error\<close> field is truthy and cannot be
  converted to a string, so the template literal of line 52 throws a TypeError inside the
  updater. The exchange has settled, \<open>loading\<close> is false, and the log holds the user
  message alone: no assistant message was appended for this accepted submission.
\<close>

theorem throwing_conversion_appends_no_message:
  "messages
     (run sample_runtime
        [Change (ascii ''a''), Send None,
         Settle 0 (Inr \<lparr>status_code = 500, statusText = ascii ''Internal Server Error'',
                        json_body = Inr (JObj [(ascii ''error'',
                                          JObj [(ascii ''toString'', JNum (Dbl 1 0))])])\<rparr>)]
        (mounted sample_runtime))
     = [\<lparr>role = User, mtext = Some (JStr (ascii ''a''))\<rparr>]
   \<and> awaiting
     (run sample_runtime
        [Change (ascii ''a''), Send None,
         Settle 0 (Inr \<lparr>status_code = 500, statusText = ascii ''Internal Server Error'',
                        json_body = Inr (JObj [(ascii ''error'',
                                          JObj [(ascii ''toString'', JNum (Dbl 1 0))])])\<rparr>)]
        (mounted sample_runtime))
     = []
   \<and> updater_errors
     (run sample_runtime
        [Change (ascii ''a''), Send None,
         Settle 0 (Inr \<lparr>status_code = 500, statusText = ascii ''Internal Server Error'',
                        json_body = Inr (JObj [(ascii ''error'',
                                          JObj [(ascii ''toString'', JNum (Dbl 1 0))])])\<rparr>)]
        (mounted sample_runtime))
     = [TypeError]
   \<and> \<not> loading
     (run sample_runtime
        [Change (ascii ''a''), Send None,
         Settle 0 (Inr \<lparr>status_code = 500, statusText = ascii ''Internal Server Error'',
                        json_body = Inr (JObj [(ascii ''error'',
                                          JObj [(ascii ''toString'', JNum (Dbl 1 0))])])\<rparr>)]
        (mounted sample_runtime))"
  by (simp add: step_def sendMessage_def sendMessage_resume_def after_fetch_def error_text_def
        interpolate_def on_catch_def cleanup_def abort_call_def stmt_defs mounted_eq
        initial_def trim_def is_ws_def ws_units_def ascii_def ok_def sample_runtime_def
        Let_def)

section \<open>Failures\<close>

text \<open>
  Claim C5. An exchange fails at transport level when the \<open>fetch\<close> is rejected, or when
  the response has a success status and reading its body is rejected (a malformed body,
  or a cancellation while it is read); the rejection \<open>e\<close> then reaches the \<open>catch\<close> block.
  The appended assistant message is the cancellation notice when \<open>e\<close> has the name
  \<open>AbortError\<close>, which is how the transport reports \<open>abort()\<close>; for every other \<open>e\<close> it is
  the network notice. Both texts are spelled out.
\<close>

theorem transport_failure_messages:
  "sendMessage_resume rt (Inl e) w =
     (None, w\<lparr>messages := messages w @
                [\<lparr>role = Assistant,
                  mtext = Some (JStr (if err_name e = ascii ''AbortError'' then cancelled_text
                                      else network_text))\<rparr>],
              loading := False, abortControllerRef := None\<rparr>)
   \<and> (ok res \<and> json_body res = Inl e \<longrightarrow>
        sendMessage_resume rt (Inr res) w =
          (None, w\<lparr>messages := messages w @
                [\<lparr>role = Assistant,
                  mtext = Some (JStr (if err_name e = ascii ''AbortError'' then cancelled_text
                                      else network_text))\<rparr>],
              loading := False, abortControllerRef := None\<rparr>))
   \<and> err_name AbortError = ascii ''AbortError''
   \<and> cancelled_text = warn @ ascii '' Request cancelled (newer request arrived).''
   \<and> network_text = warn @ ascii '' Network error or server error''
   \<and> warn = [0x26A0, 0xFE0F]"
  by (simp add: sendMessage_resume_def after_fetch_def on_catch_def cleanup_def stmt_defs
        AbortError_def cancelled_text_def network_text_def warn_def)

theorem transport_failure_messages_witness:
  "ok \<lparr>status_code = 200, statusText = ascii ''OK'', json_body = Inl SyntaxError\<rparr>
   \<and> json_body \<lparr>status_code = 200, statusText = ascii ''OK'', json_body = Inl SyntaxError\<rparr>
       = Inl SyntaxError
   \<and> messages (snd (sendMessage_resume sample_runtime
        (Inr \<lparr>status_code = 200, statusText = ascii ''OK'', json_body = Inl SyntaxError\<rparr>)
        initial))
       = [\<lparr>role = Assistant,
           mtext = Some (JStr ([0x26A0, 0xFE0F] @ ascii '' Network error or server error''))\<rparr>]
   \<and> messages (snd (sendMessage_resume sample_runtime (Inl AbortError) initial))
       = [\<lparr>role = Assistant,
           mtext = Some (JStr ([0x26A0, 0xFE0F] @
                     ascii '' Request cancelled (newer request arrived).''))\<rparr>]"
  using
    transport_failure_messages [of sample_runtime SyntaxError initial
      "\<lparr>status_code = 200, statusText = ascii ''OK'', json_body = Inl SyntaxError\<rparr>"]
    transport_failure_messages [of sample_runtime AbortError initial
      "\<lparr>status_code = 200, statusText = ascii ''OK'', json_body = Inl SyntaxError\<rparr>"]
  by (simp add: ok_def initial_def SyntaxError_def AbortError_def ascii_def)

lemma resume_http_failure:
  assumes "\<not> ok res"
    and "error_text rt (case json_body res of Inl e \<Rightarrow> Some JNull | Inr d \<Rightarrow> Some d)
           (statusText res) = Inr t"
  shows "sendMessage_resume rt (Inr res) w =
     (None, w\<lparr>messages := messages w @ [\<lparr>role = Assistant, mtext = Some (JStr t)\<rparr>],
              loading := False, abortControllerRef := None\<rparr>)"
  using assms
  by (simp add: sendMessage_resume_def after_fetch_def cleanup_def stmt_defs Let_def)

lemma interpolate_string: "interpolate rt (Some (JStr s)) = Inr s"
  by (simp add: interpolate_def)

text \<open>
  Claim C6, as amended. For a response whose status is not a success: when the body
  parses, its \<open>error\<close> field is truthy and the template literal converts that field to
  the string \<open>s\<close> without throwing (a string is taken as it is), the continuation appends
  one assistant message whose text is the warning sign, \<open>" Error: "\<close> and \<open>s\<close>; when the
  body does not parse, has no \<open>error\<close> field, or has a falsy one, such as the empty
  string, it appends one assistant message whose text is the warning sign,
  \<open>" Error: "\<close> and the status text. A truthy field whose conversion throws is left out
  of this statement.
\<close>

theorem http_failure_message:
  assumes "\<not> ok res"
  shows
   "(json_body res = Inr d \<and> truthy (opt_member (Some d) ErrorField) \<and>
     interpolate rt (opt_member (Some d) ErrorField) = Inr s \<longrightarrow>
       sendMessage_resume rt (Inr res) w =
         (None, w\<lparr>messages := messages w @
                    [\<lparr>role = Assistant, mtext = Some (JStr (warn @ ascii '' Error: '' @ s))\<rparr>],
                  loading := False, abortControllerRef := None\<rparr>))
    \<and> (json_body res = Inr d \<and> \<not> truthy (opt_member (Some d) ErrorField) \<longrightarrow>
       sendMessage_resume rt (Inr res) w =
         (None, w\<lparr>messages := messages w @
                    [\<lparr>role = Assistant,
                      mtext = Some (JStr (warn @ ascii '' Error: '' @ statusText res))\<rparr>],
                  loading := False, abortControllerRef := None\<rparr>))
    \<and> (json_body res = Inl e \<longrightarrow>
       sendMessage_resume rt (Inr res) w =
         (None, w\<lparr>messages := messages w @
                    [\<lparr>role = Assistant,
                      mtext = Some (JStr (warn @ ascii '' Error: '' @ statusText res))\<rparr>],
                  loading := False, abortControllerRef := None\<rparr>))
    \<and> interpolate rt (Some (JStr s)) = Inr s"
proof (intro conjI impI)
  assume a: "json_body res = Inr d \<and> truthy (opt_member (Some d) ErrorField) \<and>
     interpolate rt (opt_member (Some d) ErrorField) = Inr s"
  then have "error_text rt (case json_body res of Inl e \<Rightarrow> Some JNull | Inr d \<Rightarrow> Some d)
           (statusText res) = Inr (warn @ ascii '' Error: '' @ s)"
    by (simp add: error_text_def)
  from resume_http_failure [OF assms this]
  show "sendMessage_resume rt (Inr res) w =
         (None, w\<lparr>messages := messages w @
                    [\<lparr>role = Assistant, mtext = Some (JStr (warn @ ascii '' Error: '' @ s))\<rparr>],
                  loading := False, abortControllerRef := None\<rparr>)" .
next
  assume a: "json_body res = Inr d \<and> \<not> truthy (opt_member (Some d) ErrorField)"
  then have "error_text rt (case json_body res of Inl e \<Rightarrow> Some JNull | Inr d \<Rightarrow> Some d)
           (statusText res) = Inr (warn @ ascii '' Error: '' @ statusText res)"
    by (simp add: error_text_def interpolate_string)
  from resume_http_failure [OF assms this]
  show "sendMessage_resume rt (Inr res) w =
         (None, w\<lparr>messages := messages w @
                    [\<lparr>role = Assistant,
                      mtext = Some (JStr (warn @ ascii '' Error: '' @ statusText res))\<rparr>],
                  loading := False, abortControllerRef := None\<rparr>)" .
next
  assume a: "json_body res = Inl e"
  then have "error_text rt (case json_body res of Inl e \<Rightarrow> Some JNull | Inr d \<Rightarrow> Some d)
           (statusText res) = Inr (warn @ ascii '' Error: '' @ statusText res)"
    by (simp add: error_text_def interpolate_string)
  from resume_http_failure [OF assms this]
  show "sendMessage_resume rt (Inr res) w =
         (None, w\<lparr>messages := messages w @
                    [\<lparr>role = Assistant,
                      mtext = Some (JStr (warn @ ascii '' Error: '' @ statusText res))\<rparr>],
                  loading := False, abortControllerRef := None\<rparr>)" .
next
  show "interpolate rt (Some (JStr s)) = Inr s" by (rule interpolate_string)
qed

theorem http_failure_message_witness:
  "\<not> ok \<lparr>status_code = 500, statusText = ascii ''Internal Server Error'',
          json_body = Inr (JObj [(ascii ''error'', JStr (ascii ''overloaded''))])\<rparr>
   \<and> truthy (opt_member (Some (JObj [(ascii ''error'', JStr (ascii ''overloaded''))])) ErrorField)
   \<and> messages (snd (sendMessage_resume sample_runtime
        (Inr \<lparr>status_code = 500, statusText = ascii ''Internal Server Error'',
              json_body = Inr (JObj [(ascii ''error'', JStr (ascii ''overloaded''))])\<rparr>)
        initial))
       = [\<lparr>role = Assistant,
           mtext = Some (JStr ([0x26A0, 0xFE0F] @ ascii '' Error: overloaded''))\<rparr>]
   \<and> \<not> ok \<lparr>status_code = 500, statusText = ascii ''Internal Server Error'',
          json_body = Inr (JObj [])\<rparr>
   \<and> \<not> truthy (opt_member (Some (JObj [])) ErrorField)
   \<and> messages (snd (sendMessage_resume sample_runtime
        (Inr \<lparr>status_code = 500, statusText = ascii ''Internal Server Error'',
              json_body = Inr (JObj [])\<rparr>)
        initial))
       = [\<lparr>role = Assistant,
           mtext = Some (JStr ([0x26A0, 0xFE0F] @ ascii '' Error: Internal Server Error''))\<rparr>]
   \<and> \<not> ok \<lparr>status_code = 500, statusText = ascii ''Internal Server Error'',
          json_body = Inl SyntaxError\<rparr>
   \<and> messages (snd (sendMessage_resume sample_runtime
        (Inr \<lparr>status_code = 500, statusText = ascii ''Internal Server Error'',
              json_body = Inl SyntaxError\<rparr>)
        initial))
       = [\<lparr>role = Assistant,
           mtext = Some (JStr ([0x26A0, 0xFE0F] @ ascii '' Error: Internal Server Error''))\<rparr>]"
proof -
  have h1: "\<not> ok \<lparr>status_code = 500, statusText = ascii ''Internal Server Error'',
          json_body = Inr (JObj [(ascii ''error'', JStr (ascii ''overloaded''))])\<rparr>"
    by (simp add: ok_def)
  have h2: "\<not> ok \<lparr>status_code = 500, statusText = ascii ''Internal Server Error'',
          json_body = Inr (JObj [])\<rparr>"
    by (simp add: ok_def)
  have h3: "\<not> ok \<lparr>status_code = 500, statusText = ascii ''Internal Server Error'',
          json_body = Inl SyntaxError\<rparr>"
    by (simp add: ok_def)
  show ?thesis
    using h1 h2 h3
      http_failure_message [OF h1,
        of "JObj [(ascii ''error'', JStr (ascii ''overloaded''))]" sample_runtime
           "ascii ''overloaded''" initial SyntaxError]
      http_failure_message [OF h2, of "JObj []" sample_runtime "[]" initial SyntaxError]
      http_failure_message [OF h3, of "JObj []" sample_runtime "[]" initial SyntaxError]
    by (simp add: interpolate_def initial_def warn_def ascii_def)
qed

text \<open>
  The claim as written takes the \<open>error\<close> field whenever it is present. For status 500,
  status text \<open>Internal Server Error\<close> and body \<open>{"error":""}\<close> the field is present and
  the message carries the status text instead.
\<close>

theorem error_field_present_but_empty_counterexample:
  "\<not> ok \<lparr>status_code = 500, statusText = ascii ''Internal Server Error'',
          json_body = Inr (JObj [(ascii ''error'', JStr [])])\<rparr>
   \<and> get_prop (JObj [(ascii ''error'', JStr [])]) ErrorField = Some (JStr [])
   \<and> messages (snd (sendMessage_resume sample_runtime
        (Inr \<lparr>status_code = 500, statusText = ascii ''Internal Server Error'',
              json_body = Inr (JObj [(ascii ''error'', JStr [])])\<rparr>)
        initial))
       = [\<lparr>role = Assistant,
           mtext = Some (JStr (warn @ ascii '' Error: Internal Server Error''))\<rparr>]
   \<and> warn @ ascii '' Error: Internal Server Error'' \<noteq> warn @ ascii '' Error: '' @ []"
  by (simp add: ok_def sendMessage_resume_def after_fetch_def error_text_def interpolate_def
        cleanup_def stmt_defs initial_def ascii_def Let_def)

section \<open>Supersession\<close>

lemma abort_call_throws: "fst (abort_call (Some e) h w) = Some e"
  by (simp add: abort_call_def)

text \<open>
  Claim C7. A call of \<open>sendMessage\<close> with a non-empty trimmed input never throws,
  whether \<open>abort()\<close> returns or throws (and the call can throw: the surroundings decide).
  When \<open>abortControllerRef\<close> holds a controller, \<open>abort()\<close> is called on it, and the call
  comes before the new \<open>fetch\<close> in the order of calls; nothing else is called. The new
  request carries the signal of the new controller, which takes the slot, and the new
  exchange is pending. When \<open>abort()\<close> returns, the old signal is aborted.
\<close>

theorem supersession_cancels_before_request:
  assumes "trim (input w) \<noteq> []"
  shows
   "fst (sendMessage rt ab w) = None
    \<and> effects (snd (sendMessage rt ab w)) =
        effects w @ (case abortControllerRef w of None \<Rightarrow> [] | Some old \<Rightarrow> [AbortCall old]) @
        [Fetch (chat_request rt (trim (input w)) (controllers w))]
    \<and> signal (chat_request rt (trim (input w)) (controllers w)) = Some (controllers w)
    \<and> abortControllerRef (snd (sendMessage rt ab w)) = Some (controllers w)
    \<and> awaiting (snd (sendMessage rt ab w)) = awaiting w @ [controllers w]
    \<and> (abortControllerRef w = Some old \<and> ab = None \<longrightarrow>
         old \<in> set (aborted (snd (sendMessage rt ab w))))
    \<and> fst (abort_call (Some e) old w) = Some e"
proof -
  note call = sendMessage_accepted [OF assms, of rt ab]
  have "signal (chat_request rt (trim (input w)) (controllers w)) = Some (controllers w)"
    by (simp add: chat_request_def)
  moreover have "abortControllerRef w = Some old \<and> ab = None \<longrightarrow>
      old \<in> set (aborted (snd (sendMessage rt ab w)))"
    by (simp add: sendMessage_accepted [OF assms])
  moreover have "fst (abort_call (Some e) old w) = Some e"
    by (rule abort_call_throws)
  ultimately show ?thesis
    by (simp add: call)
qed

theorem supersession_cancels_before_request_witness:
  "trim (input (run sample_runtime [Change (ascii ''a''), Send None, Change (ascii ''b'')]
                  (mounted sample_runtime))) \<noteq> []
   \<and> abortControllerRef (run sample_runtime [Change (ascii ''a''), Send None, Change (ascii ''b'')]
                  (mounted sample_runtime)) = Some 0
   \<and> fst (sendMessage sample_runtime (Some TypeError)
        (run sample_runtime [Change (ascii ''a''), Send None, Change (ascii ''b'')]
           (mounted sample_runtime))) = None
   \<and> effects (snd (sendMessage sample_runtime (Some TypeError)
        (run sample_runtime [Change (ascii ''a''), Send None, Change (ascii ''b'')]
           (mounted sample_runtime)))) =
       [Fetch (ping_request sample_runtime),
        Fetch (chat_request sample_runtime (ascii ''a'') 0),
        AbortCall 0,
        Fetch (chat_request sample_runtime (ascii ''b'') 1)]
   \<and> 0 \<in> set (aborted (snd (sendMessage sample_runtime None
        (run sample_runtime [Change (ascii ''a''), Send None, Change (ascii ''b'')]
           (mounted sample_runtime)))))"
proof -
  have w: "run sample_runtime [Change (ascii ''a''), Send None, Change (ascii ''b'')]
             (mounted sample_runtime) =
           \<lparr>input = ascii ''b'',
            messages = [\<lparr>role = User, mtext = Some (JStr (ascii ''a''))\<rparr>],
            loading = True, status = Warming, abortControllerRef = Some 0,
            controllers = 1, aborted = [], awaiting = [0], probing = True,
            effects = [Fetch (ping_request sample_runtime),
                       Fetch (chat_request sample_runtime (ascii ''a'') 0)],
            updater_errors = []\<rparr>"
    by (simp add: step_def sendMessage_def stmt_defs mounted_eq initial_def trim_def is_ws_def
          ws_units_def ascii_def Let_def)
  have h: "trim (input (run sample_runtime [Change (ascii ''a''), Send None, Change (ascii ''b'')]
                  (mounted sample_runtime))) \<noteq> []"
    unfolding w by (simp add: trim_def is_ws_def ws_units_def ascii_def)
  have t: "trim (ascii ''b'') = ascii ''b''"
    by (simp add: trim_def is_ws_def ws_units_def ascii_def)
  show ?thesis
    using h
      supersession_cancels_before_request [OF h, of sample_runtime "Some TypeError" 0 TypeError]
      supersession_cancels_before_request [OF h, of sample_runtime None 0 TypeError]
    unfolding w by (simp add: t)
qed

section \<open>The start-up probe\<close>

text \<open>
  Claim C8. Mounting sets the status to \<open>warming\<close> and issues one request, a GET of
  \<open>BACKEND/ping\<close> without body; over any run of a mounted component it stays the only GET
  request ever issued. When that \<open>fetch\<close> is fulfilled, with whatever response, the
  status becomes \<open>ready\<close>; when it is rejected, \<open>idle\<close>; nothing else in the state
  changes, so the log and \<open>abortControllerRef\<close> are untouched. Once the probe has settled
  the status is never \<open>warming\<close> again.
\<close>

theorem probe_runs_once_and_sets_status:
  "mounted rt =
     initial\<lparr>status := Warming, effects := [Fetch (ping_request rt)], probing := True\<rparr>
   \<and> ping_request rt =
       \<lparr>req_method = ascii ''GET'', url = BACKEND rt @ ascii ''/ping'', headers = [],
        body = None, signal = None\<rparr>
   \<and> get_requests (effects (run rt evs (mounted rt))) = [ping_request rt]
   \<and> probe_resume (Inr res) w = (None, w\<lparr>status := Ready\<rparr>)
   \<and> probe_resume (Inl e) w = (None, w\<lparr>status := Idle\<rparr>)
   \<and> status (run rt (evs @ ProbeSettle r # evs') (mounted rt)) \<noteq> Warming"
proof (intro conjI)
  show "mounted rt =
     initial\<lparr>status := Warming, effects := [Fetch (ping_request rt)], probing := True\<rparr>"
    by (rule mounted_eq)
  show "ping_request rt =
       \<lparr>req_method = ascii ''GET'', url = BACKEND rt @ ascii ''/ping'', headers = [],
        body = None, signal = None\<rparr>"
    by (simp add: ping_request_def)
  show "get_requests (effects (run rt evs (mounted rt))) = [ping_request rt]"
    by (simp add: run_get_requests mounted_eq ping_request_def)
  show "probe_resume (Inr res) w = (None, w\<lparr>status := Ready\<rparr>)"
    by (rule probe_resume_fulfilled)
  show "probe_resume (Inl e) w = (None, w\<lparr>status := Idle\<rparr>)"
    by (rule probe_resume_rejected)
  show "status (run rt (evs @ ProbeSettle r # evs') (mounted rt)) \<noteq> Warming"
    by (rule after_probe_not_warming)
qed

end
